theory Spec2Isabelle
  imports Complex_Main "HOL-Library.Word"
begin

section \<open>The Mandelbrot notebook: escape function, renderers, device kernel\<close>

text \<open>
  The development embeds the code cells of \<^verbatim>\<open>mandelbrot_numba.ipynb\<close>:
  the escape function \<^verbatim>\<open>mandel\<close>, the renderer \<^verbatim>\<open>create_fractal\<close>, their
  \<^verbatim>\<open>@autojit\<close> copies, the device function \<^verbatim>\<open>mandel_gpu\<close> and the kernel
  \<^verbatim>\<open>mandel_kernel\<close> with its launch.

  Conventions of the embedding.
  \<^item> Python floats and the complex value \<^verbatim>\<open>z\<close> are read as the reals and the complex
    numbers of HOL: rounding, infinities and NaN are outside the model, and every
    path computes with the same exact arithmetic.
  \<^item> Python integers are \<^typ>\<open>int\<close>; array shapes, pixel indices and the CUDA
    launch geometry are \<^typ>\<open>nat\<close>; \<^verbatim>\<open>uint8\<close> and \<^verbatim>\<open>uint32\<close> are
    \<^typ>\<open>8 word\<close> and \<^typ>\<open>32 word\<close>.
  \<^item> A raise is a value \<open>Inl e\<close> of the result type; a normal return is \<open>Inr v\<close>.
  \<^item> In-place mutation of the image is explicit state passing.
\<close>

subsection \<open>Errors\<close>

datatype error = ZeroDivisionError | IndexError | ValueError

subsection \<open>The escape function\<close>

text \<open>
  \<^verbatim>\<open>
  def mandel(x, y, max_iters):
    c = complex(x, y)
    z = 0.0j
    for i in range(max_iters):
      z = z*z + c
      if (z.real*z.real + z.imag*z.imag) >= 4:
        return i
    return max_iters
  \<close>
  The loop over \<^verbatim>\<open>range(max_iters)\<close> is the recursion \<open>mandel_loop\<close> on the loop
  variable \<open>i\<close>, started at \<open>0\<close>; it stops when \<open>i\<close> reaches \<open>max_iters\<close>
  (at once when \<open>max_iters \<le> 0\<close>, since the range is then empty).
\<close>

function mandel_loop :: "complex \<Rightarrow> complex \<Rightarrow> int \<Rightarrow> int \<Rightarrow> int" where
  "mandel_loop c z i max_iters =
     (if i < max_iters then
        (let z' = z * z + c in
         if Re z' * Re z' + Im z' * Im z' \<ge> 4 then i
         else mandel_loop c z' (i + 1) max_iters)
      else max_iters)"
  by pat_completeness auto
termination
  by (relation "measure (\<lambda>(c, z, i, max_iters). nat (max_iters - i))") auto

declare mandel_loop.simps [simp del]

definition mandel :: "real \<Rightarrow> real \<Rightarrow> int \<Rightarrow> int" where
  "mandel x y max_iters = mandel_loop (Complex x y) 0 0 max_iters"

text \<open>
  The number of times a call executes the update \<^verbatim>\<open>z = z*z + c\<close>: the same recursion
  as \<open>mandel_loop\<close>, counting one for every pass through the loop body.
\<close>

function mandel_loop_updates :: "complex \<Rightarrow> complex \<Rightarrow> int \<Rightarrow> int \<Rightarrow> nat" where
  "mandel_loop_updates c z i max_iters =
     (if i < max_iters then
        (let z' = z * z + c in
         if Re z' * Re z' + Im z' * Im z' \<ge> 4 then 1
         else 1 + mandel_loop_updates c z' (i + 1) max_iters)
      else 0)"
  by pat_completeness auto
termination
  by (relation "measure (\<lambda>(c, z, i, max_iters). nat (max_iters - i))") auto

declare mandel_loop_updates.simps [simp del]

definition mandel_updates :: "real \<Rightarrow> real \<Rightarrow> int \<Rightarrow> nat" where
  "mandel_updates x y max_iters = mandel_loop_updates (Complex x y) 0 0 max_iters"

subsection \<open>The escape contract in the words of the specification\<close>




subsection \<open>The image buffer\<close>

text \<open>
  A two-dimensional \<^verbatim>\<open>uint8\<close> array: its shape \<^verbatim>\<open>(shape[0], shape[1])\<close>, that is
  (height, width), and its elements, addressed by (row, column).
  \<^verbatim>\<open>np.zeros((h, w), dtype = np.uint8)\<close> is \<open>zeros h w\<close>.
\<close>

record image =
  shape0 :: nat
  shape1 :: nat
  data :: "nat \<times> nat \<Rightarrow> 8 word"


text \<open>
  The store \<^verbatim>\<open>image[y, x] = v\<close>; an index outside the shape raises.
\<close>

definition setitem :: "image \<Rightarrow> nat \<times> nat \<Rightarrow> 8 word \<Rightarrow> error + image" where
  "setitem img idx v =
     (if fst idx < shape0 img \<and> snd idx < shape1 img
      then Inr (img\<lparr>data := (data img)(idx := v)\<rparr>)
      else Inl IndexError)"

text \<open>
  A \<^verbatim>\<open>for\<close> loop over a sequence: the body runs on each element in order, and a
  raise in the body ends the loop.
\<close>

fun for_each :: "'a list \<Rightarrow> ('a \<Rightarrow> 's \<Rightarrow> error + 's) \<Rightarrow> 's \<Rightarrow> error + 's" where
  "for_each [] body s = Inr s"
| "for_each (a # as) body s =
     (case body a s of Inl e \<Rightarrow> Inl e | Inr s' \<Rightarrow> for_each as body s')"

subsection \<open>The sequential renderer\<close>


subsection \<open>The compiled renderer\<close>





subsection \<open>The device function and the kernel\<close>

text \<open>
  \<^verbatim>\<open>mandel_gpu = cuda.jit(restype=uint32, argtypes=[f8, f8, uint32], device=True)(mandel)\<close>:
  the escape function with a \<^verbatim>\<open>uint32\<close> cap and a \<^verbatim>\<open>uint32\<close> result.
\<close>

definition mandel_gpu :: "real \<Rightarrow> real \<Rightarrow> 32 word \<Rightarrow> 32 word" where
  "mandel_gpu x y max_iters = word_of_int (mandel x y (uint max_iters))"

text \<open>
  The launch geometry \<^verbatim>\<open>[griddim, blockdim]\<close> (\<^verbatim>\<open>cuda.gridDim\<close>, \<^verbatim>\<open>cuda.blockDim\<close>)
  and the identity of one thread (\<^verbatim>\<open>cuda.blockIdx\<close>, \<^verbatim>\<open>cuda.threadIdx\<close>).
\<close>

record launch_config =
  gridDim_x :: nat
  gridDim_y :: nat
  blockDim_x :: nat
  blockDim_y :: nat

record thread =
  blockIdx_x :: nat
  blockIdx_y :: nat
  threadIdx_x :: nat
  threadIdx_y :: nat

text \<open>
  \<^verbatim>\<open>cuda.grid(2)\<close>, which the notebook describes as
  \<^verbatim>\<open>blockDim * blockIdx + threadIdx\<close> on each axis.
\<close>

definition cuda_grid :: "launch_config \<Rightarrow> thread \<Rightarrow> nat \<times> nat" where
  "cuda_grid cfg t =
     (blockDim_x cfg * blockIdx_x t + threadIdx_x t,
      blockDim_y cfg * blockIdx_y t + threadIdx_y t)"

text \<open>
  \<^verbatim>\<open>range(start, stop, step)\<close> on non-negative integers: the values
  \<open>start, start + step, \<dots>\<close> below \<open>stop\<close>; a zero step raises \<^verbatim>\<open>ValueError\<close>.
\<close>

function range_steps :: "nat \<Rightarrow> nat \<Rightarrow> nat \<Rightarrow> nat list" where
  "range_steps start stop step =
     (if 0 < step \<and> start < stop then start # range_steps (start + step) stop step
      else [])"
  by pat_completeness auto
termination
  by (relation "measure (\<lambda>(start, stop, step). stop - start)") auto

declare range_steps.simps [simp del]

definition py_range :: "nat \<Rightarrow> nat \<Rightarrow> nat \<Rightarrow> error + nat list" where
  "py_range start stop step =
     (if step = 0 then Inl ValueError else Inr (range_steps start stop step))"

text \<open>
  \<^verbatim>\<open>
  @cuda.jit(argtypes=[f8, f8, f8, f8, uint8[:,:], uint32])
  def mandel_kernel(min_x, max_x, min_y, max_y, image, iters):
    height = image.shape[0]
    width = image.shape[1]
    pixel_size_x = (max_x - min_x) / width
    pixel_size_y = (max_y - min_y) / height
    startX, startY = cuda.grid(2)
    gridX = cuda.gridDim.x * cuda.blockDim.x;
    gridY = cuda.gridDim.y * cuda.blockDim.y;
    for x in range(startX, width, gridX):
      real = min_x + x * pixel_size_x
      for y in range(startY, height, gridY):
        imag = min_y + y * pixel_size_y
        image[y, x] = mandel_gpu(real, imag, iters)
  \<close>
  The body as one thread \<open>t\<close> of the launch \<open>cfg\<close> runs it, read as the Python text
  it is. The store narrows the \<^verbatim>\<open>uint32\<close> result to \<^verbatim>\<open>uint8\<close> (\<open>ucast\<close>).
\<close>

definition mandel_kernel ::
  "launch_config \<Rightarrow> thread \<Rightarrow> real \<Rightarrow> real \<Rightarrow> real \<Rightarrow> real \<Rightarrow> image \<Rightarrow> 32 word
     \<Rightarrow> error + image" where
  "mandel_kernel cfg t min_x max_x min_y max_y image' iters =
     (let height = shape0 image';
          width = shape1 image'
      in if width = 0 then Inl ZeroDivisionError
         else let pixel_size_x = (max_x - min_x) / of_nat width
         in if height = 0 then Inl ZeroDivisionError
         else let pixel_size_y = (max_y - min_y) / of_nat height;
                  startX = fst (cuda_grid cfg t);
                  startY = snd (cuda_grid cfg t);
                  gridX = gridDim_x cfg * blockDim_x cfg;
                  gridY = gridDim_y cfg * blockDim_y cfg
         in case py_range startX width gridX of
              Inl e \<Rightarrow> Inl e
            | Inr xs \<Rightarrow> for_each xs (\<lambda>x image'.
                let real' = min_x + of_nat x * pixel_size_x
                in case py_range startY height gridY of
                     Inl e \<Rightarrow> Inl e
                   | Inr ys \<Rightarrow> for_each ys (\<lambda>y image'.
                       let imag = min_y + of_nat y * pixel_size_y
                       in setitem image' (y, x) (ucast (mandel_gpu real' imag iters)))
                       image') image')"




text \<open>
  The pixels \<open>(x, y)\<close> that the two grid-stride loops of thread \<open>t\<close> reach, in the
  order of the loops, for an image of the given width and height.
\<close>

definition kernel_visits :: "launch_config \<Rightarrow> thread \<Rightarrow> nat \<Rightarrow> nat \<Rightarrow> (nat \<times> nat) list" where
  "kernel_visits cfg t width height =
     [(x, y).
        x \<leftarrow> range_steps (fst (cuda_grid cfg t)) width (gridDim_x cfg * blockDim_x cfg),
        y \<leftarrow> range_steps (snd (cuda_grid cfg t)) height (gridDim_y cfg * blockDim_y cfg)]"

subsection \<open>Clamping, in the words of the specification\<close>


section \<open>Properties of the escape function\<close>

subsection \<open>The loop and the orbit\<close>

lemma Complex_zero: "Complex 0 0 = 0"
  by (simp add: complex_eq_iff)





lemma mandel_loop_bounds:
  "i \<le> N \<Longrightarrow> i \<le> mandel_loop c z i N \<and> mandel_loop c z i N \<le> N"
proof (induction c z i N rule: mandel_loop.induct)
  case (1 c z i N)
  show ?case
  proof (cases "i < N")
    case False
    with 1 show ?thesis by (subst mandel_loop.simps, subst mandel_loop.simps) simp
  next
    case True
    show ?thesis
    proof (cases "4 \<le> Re (z * z + c) * Re (z * z + c) + Im (z * z + c) * Im (z * z + c)")
      case esc: True
      with True show ?thesis by (subst mandel_loop.simps, subst mandel_loop.simps) (simp add: Let_def)
    next
      case esc: False
      from "1.IH"[OF True refl esc] True
      have "i + 1 \<le> mandel_loop c (z * z + c) (i + 1) N \<and> mandel_loop c (z * z + c) (i + 1) N \<le> N"
        by simp
      moreover have "mandel_loop c z i N = mandel_loop c (z * z + c) (i + 1) N"
        using True esc by (subst mandel_loop.simps) (simp add: Let_def)
      ultimately show ?thesis by simp
    qed
  qed
qed

lemma mandel_loop_origin: "mandel_loop 0 0 i N = N"
proof (induction "0::complex" "0::complex" i N rule: mandel_loop.induct)
  case (1 i N)
  show ?case
  proof (cases "i < N")
    case False
    then show ?thesis by (subst mandel_loop.simps) simp
  next
    case True
    have "mandel_loop 0 0 i N = mandel_loop 0 0 (i + 1) N"
      using True by (subst mandel_loop.simps) simp
    also have "\<dots> = N" using 1[OF True] by simp
    finally show ?thesis .
  qed
qed

lemma mandel_origin: "mandel 0 0 N = N"
  by (simp add: mandel_def Complex_zero mandel_loop_origin)

lemma mandel_two: "1 \<le> N \<Longrightarrow> mandel 2 0 N = 0"
  by (simp add: mandel_def mandel_loop.simps[of _ 0 0])

subsection \<open>Bounds, caps and the number of updates\<close>

lemma mandel_loop_stop: "N \<le> i \<Longrightarrow> mandel_loop c z i N = N"
  by (subst mandel_loop.simps) simp


lemma mandel_loop_escape_indep:
  "mandel_loop c z i N1 < N1 \<Longrightarrow> mandel_loop c z i N1 < N2 \<Longrightarrow>
     mandel_loop c z i N2 = mandel_loop c z i N1"
proof (induction c z i N1 rule: mandel_loop.induct)
  case (1 c z i N1)
  show ?case
  proof (cases "i < N1")
    case False
    with "1.prems" show ?thesis by (simp add: mandel_loop_stop)
  next
    case True
    with mandel_loop_bounds[of i N1 c z] "1.prems" have lt2: "i < N2" by linarith
    show ?thesis
    proof (cases "4 \<le> Re (z * z + c) * Re (z * z + c) + Im (z * z + c) * Im (z * z + c)")
      case esc: True
      with True lt2 show ?thesis
        by (subst mandel_loop.simps, subst (2) mandel_loop.simps) (simp add: Let_def)
    next
      case esc: False
      have a: "mandel_loop c z i N1 = mandel_loop c (z * z + c) (i + 1) N1"
        using True esc by (subst mandel_loop.simps) (simp add: Let_def)
      have b: "mandel_loop c z i N2 = mandel_loop c (z * z + c) (i + 1) N2"
        using lt2 esc by (subst mandel_loop.simps) (simp add: Let_def)
      from "1.IH"[OF True refl esc] "1.prems" a b show ?thesis by simp
    qed
  qed
qed

lemma mandel_loop_updates_bound: "mandel_loop_updates c z i N \<le> nat (N - i)"
proof (induction c z i N rule: mandel_loop_updates.induct)
  case (1 c z i N)
  show ?case
  proof (cases "i < N")
    case False
    then show ?thesis by (subst mandel_loop_updates.simps) simp
  next
    case True
    show ?thesis
    proof (cases "4 \<le> Re (z * z + c) * Re (z * z + c) + Im (z * z + c) * Im (z * z + c)")
      case esc: True
      with True show ?thesis by (subst mandel_loop_updates.simps) (simp add: Let_def)
    next
      case esc: False
      have "mandel_loop_updates c z i N = 1 + mandel_loop_updates c (z * z + c) (i + 1) N"
        using True esc by (subst mandel_loop_updates.simps) (simp add: Let_def)
      with "1.IH"[OF True refl esc] True show ?thesis by simp
    qed
  qed
qed

lemma mandel_loop_updates_result:
  "mandel_loop_updates c z i N =
     (if mandel_loop c z i N < N then nat (mandel_loop c z i N - i) + 1 else nat (N - i))"
proof (induction c z i N rule: mandel_loop_updates.induct)
  case (1 c z i N)
  show ?case
  proof (cases "i < N")
    case False
    then show ?thesis
      by (subst mandel_loop_updates.simps) (simp add: mandel_loop_stop)
  next
    case True
    show ?thesis
    proof (cases "4 \<le> Re (z * z + c) * Re (z * z + c) + Im (z * z + c) * Im (z * z + c)")
      case esc: True
      then have "mandel_loop c z i N = i" using True
        by (subst mandel_loop.simps) (simp add: Let_def)
      moreover have "mandel_loop_updates c z i N = 1" using True esc
        by (subst mandel_loop_updates.simps) (simp add: Let_def)
      ultimately show ?thesis using True by simp
    next
      case esc: False
      have a: "mandel_loop c z i N = mandel_loop c (z * z + c) (i + 1) N"
        using True esc by (subst mandel_loop.simps) (simp add: Let_def)
      have b: "mandel_loop_updates c z i N = 1 + mandel_loop_updates c (z * z + c) (i + 1) N"
        using True esc by (subst mandel_loop_updates.simps) (simp add: Let_def)
      have c: "i + 1 \<le> mandel_loop c (z * z + c) (i + 1) N"
        using mandel_loop_bounds[of "i + 1" N c "z * z + c"] True by simp
      from "1.IH"[OF True refl esc] a b c True show ?thesis by (auto simp: nat_diff_distrib)
    qed
  qed
qed


lemma mandel_nonpos: "N \<le> 0 \<Longrightarrow> mandel x y N = N"
  unfolding mandel_def by (rule mandel_loop_stop)




subsection \<open>The claims about the escape function\<close>



text \<open>
  C4. The origin never escapes: \<open>mandel 0 0 N = N\<close> for every positive \<open>N\<close>. The
  point \<open>2\<close> escapes at iteration index \<open>0\<close>: \<open>mandel 2 0 N = 0\<close> for every
  \<open>N \<ge> 1\<close>.
\<close>

theorem mandel_fixed_points:
  "(0 < N \<longrightarrow> mandel 0 0 N = N) \<and> (1 \<le> N \<longrightarrow> mandel 2 0 N = 0)"
  by (simp add: mandel_origin mandel_two)

theorem mandel_fixed_points_witness:
  "(0::int) < 7 \<and> mandel 0 0 7 = 7 \<and> (1::int) \<le> 7 \<and> mandel 2 0 7 = 0"
  using mandel_fixed_points [of 7] by simp



text \<open>
  C9. The escape function is total (its recursion is accepted with a termination
  proof), and a call with a natural number \<open>n\<close> as cap executes the update
  \<^verbatim>\<open>z = z*z + c\<close> at most \<open>n\<close> times; the number of updates is the returned index plus
  one when the point escapes, and \<open>n\<close> when it does not.
\<close>

theorem mandel_updates_at_most_cap:
  "mandel_updates x y (int n) \<le> n \<and>
   mandel_updates x y (int n) =
     (if mandel x y (int n) < int n then nat (mandel x y (int n)) + 1 else n)"
  using mandel_loop_updates_bound [of "Complex x y" 0 0 "int n"]
    mandel_loop_updates_result [of "Complex x y" 0 0 "int n"]
  by (simp add: mandel_updates_def mandel_def)

theorem mandel_updates_at_most_cap_witness:
  "mandel_updates 1 0 (int 5) \<le> 5 \<and> mandel_updates 1 0 (int 5) = 2
     \<and> mandel_updates 0 0 (int 5) = 5"
proof -
  have a: "mandel 1 0 5 = 1" by code_simp
  from mandel_updates_at_most_cap [of 1 0 5] mandel_updates_at_most_cap [of 0 0 5] a
  show ?thesis by (simp add: mandel_origin)
qed

text \<open>
  C10. With a cap of zero the escape function executes no update and returns \<open>0\<close>;
  the function has no raise, so the call ends normally.
\<close>

theorem mandel_zero_cap:
  "mandel x y 0 = 0 \<and> mandel_updates x y 0 = 0"
  using mandel_loop_updates_bound [of "Complex x y" 0 0 0]
  by (simp add: mandel_nonpos mandel_updates_def)

theorem mandel_zero_cap_witness:
  "mandel 3 4 0 = 0 \<and> mandel_updates 3 4 0 = 0"
  using mandel_zero_cap [of 3 4] by simp

section \<open>Properties of the renderers\<close>

subsection \<open>Loops that overwrite pixels\<close>





subsection \<open>The result of the sequential renderer\<close>




subsection \<open>Ranges with a stride, and the threads of a launch\<close>




lemma range_steps_unit: "range_steps 0 n 1 = [0..<n]"
proof -
  have "range_steps a (a + d) 1 = [a..<a + d]" for a d
  proof (induction d arbitrary: a)
    case 0
    then show ?case by (subst range_steps.simps) simp
  next
    case (Suc d)
    have "range_steps a (a + Suc d) 1 = a # range_steps (a + 1) (a + 1 + d) 1"
      by (subst range_steps.simps) simp
    also have "\<dots> = a # [a + 1..<a + 1 + d]" using Suc.IH [of "a + 1"] by simp
    also have "\<dots> = [a..<a + Suc d]" by (simp add: upt_rec)
    finally show ?case .
  qed
  from this [of 0 n] show ?thesis by simp
qed




subsection \<open>The pixels of one thread\<close>











subsection \<open>Coverage by the grid-stride loops\<close>



subsection \<open>The kernel as a loop over its visits\<close>


lemma for_each_map_state: "for_each (map g xs) body s = for_each xs (\<lambda>a. body (g a)) s"
  by (induction xs arbitrary: s) (auto split: sum.splits)

lemma for_each_map: "for_each (map g xs) body = for_each xs (\<lambda>a. body (g a))"
  by (rule ext) (rule for_each_map_state)

lemma for_each_append:
  "for_each (xs @ ys) body s =
     (case for_each xs body s of Inl e \<Rightarrow> Inl e | Inr s' \<Rightarrow> for_each ys body s')"
  by (induction xs arbitrary: s) (auto split: sum.splits)

lemma for_each_concat:
  "for_each (concat xss) body s = for_each xss (\<lambda>xs s. for_each xs body s) s"
  by (induction xss arbitrary: s) (auto simp: for_each_append split: sum.splits)

lemma mandel_kernel_unfold:
  assumes "0 < shape1 img" and "0 < shape0 img"
    and "0 < gridDim_x cfg * blockDim_x cfg" and "0 < gridDim_y cfg * blockDim_y cfg"
  shows "mandel_kernel cfg t min_x max_x min_y max_y img iters =
     for_each (range_steps (fst (cuda_grid cfg t)) (shape1 img) (gridDim_x cfg * blockDim_x cfg))
       (\<lambda>x im. for_each
           (range_steps (snd (cuda_grid cfg t)) (shape0 img) (gridDim_y cfg * blockDim_y cfg))
           (\<lambda>y im. setitem im (y, x)
             (ucast (mandel_gpu (min_x + of_nat x * ((max_x - min_x) / of_nat (shape1 img)))
                                (min_y + of_nat y * ((max_y - min_y) / of_nat (shape0 img))) iters)))
           im) img"
  using assms unfolding mandel_kernel_def py_range_def Let_def by simp

lemma mandel_kernel_visits:
  assumes "0 < shape1 img" and "0 < shape0 img"
    and "0 < gridDim_x cfg * blockDim_x cfg" and "0 < gridDim_y cfg * blockDim_y cfg"
  shows "mandel_kernel cfg t min_x max_x min_y max_y img iters =
     for_each (kernel_visits cfg t (shape1 img) (shape0 img))
       (\<lambda>p im. setitem im (snd p, fst p)
          (ucast (mandel_gpu (min_x + of_nat (fst p) * ((max_x - min_x) / of_nat (shape1 img)))
                             (min_y + of_nat (snd p) * ((max_y - min_y) / of_nat (shape0 img))) iters)))
       img"
  unfolding mandel_kernel_unfold [OF assms] kernel_visits_def
  by (simp add: for_each_concat for_each_map)

subsection \<open>The three renderers compute the same image\<close>













subsection \<open>The claims about the renderers\<close>












end
